theory Spec2Isabelle
  imports Main "HOL-Library.AList"
begin

section \<open>Values, errors and the external collaborators\<close>

text \<open>
  The embedding follows \<^verbatim>\<open>aiogram_forms/base.py\<close>. Class attributes of a form class
  (\<^verbatim>\<open>_state\<close>, \<^verbatim>\<open>_fields\<close>, \<^verbatim>\<open>_i18n\<close>, \<^verbatim>\<open>_registered\<close>, \<^verbatim>\<open>_callback\<close>,
  \<^verbatim>\<open>_callback_args\<close>) are the record \<open>form\<close>; everything reached through
  \<^verbatim>\<open>Dispatcher.get_current()\<close> and \<^verbatim>\<open>types.Chat.get_current()\<close> (the FSM storage,
  the bot's outbox, the registered handlers, the middlewares, the current chat) is the
  record \<open>world\<close>. Every classmethod takes both and returns both, together with either
  the exception it raised or its result: a Python exception does not undo the effects
  that happened before it.
\<close>

datatype pyval = PNone | PStr string | PInt int | PDict "(string \<times> pyval) list"

datatype error = AttributeError | IndexError | ValueError

datatype keyboard = ReplyKeyboardRemove | ReplyKeyboardMarkup string

text \<open>
  A validator (\<^verbatim>\<open>BaseValidator\<close>) is an abstract predicate on the user's input. The
  identifier stands for the object; every invocation is written to the world's log, the
  way a mock counts its calls.
\<close>

record validator =
  validator_id :: nat
  check :: "string \<Rightarrow> bool"

text \<open>
  \<^verbatim>\<open>BaseField\<close>. \<open>field_id\<close> is the identity of the object (the class defines no
  \<^verbatim>\<open>__eq__\<close>, so Python compares two fields by identity); a field that is updated
  keeps it. \<open>None\<close> in \<open>field_key\<close> is the class default \<^verbatim>\<open>_key = None\<close>;
  \<open>None\<close> in \<open>field_state\<close> is the attribute \<^verbatim>\<open>_state\<close> not being set yet (the class
  only annotates it), so that reading it raises \<^verbatim>\<open>AttributeError\<close>. The attribute
  \<^verbatim>\<open>_form\<close> is bound to the owning class by \<^verbatim>\<open>__set_name__\<close> and
  \<^verbatim>\<open>_get_form_fields\<close>; the model passes the owner explicitly where the field reads it.
\<close>

record base_field =
  field_id :: nat
  field_key :: "string option"
  field_state :: "string option"
  label :: string
  validation_error_message :: string
  validators :: "validator list"
  reply_keyboard :: keyboard

text \<open>
  aiogram's \<^verbatim>\<open>StatesGroup\<close> class as the form creates it: \<open>group_id\<close> is the identity
  of the class object, \<open>states_names\<close> the tuple \<^verbatim>\<open>states_names\<close>.
\<close>

record states_group =
  group_id :: nat
  group_name :: string
  states_names :: "string list"

record middleware =
  middleware_str :: string
  middleware_call :: "string \<Rightarrow> string"

record form =
  name :: string
  form_fields :: "base_field list"
  form_state :: "states_group option"
  i18n :: "middleware option"
  registered :: bool
  callback :: "nat option"
  callback_args :: "pyval list option"

record conversation =
  current_state :: "string option"
  data :: "(string \<times> string) list"

record message =
  message_chat :: int
  message_text :: string
  reply_markup :: "keyboard option"

record registration =
  handler_of :: string
  handler_states :: "string list"

record world =
  chat :: int
  storage :: "int \<Rightarrow> conversation"
  proxies :: nat
  sent :: "message list"
  handlers :: "registration list"
  middlewares :: "middleware list"
  validator_calls :: "(nat \<times> string) list"
  callback_calls :: "(nat \<times> pyval list) list"
  classes_created :: nat

type_synonym 'a outcome = "(error + 'a) \<times> form \<times> world"

subsection \<open>The FSM context of the current chat, the bot and the callback\<close>

definition set_state :: "string option \<Rightarrow> world \<Rightarrow> world" where
  "set_state s w = w\<lparr>storage := (storage w)(chat w := (storage w (chat w))\<lparr>current_state := s\<rparr>)\<rparr>"

definition get_state :: "world \<Rightarrow> string option" where
  "get_state w = current_state (storage w (chat w))"

text \<open>\<^verbatim>\<open>reset_state(with_data)\<close>: the state becomes \<^verbatim>\<open>None\<close>; the data are emptied only
  when \<^verbatim>\<open>with_data\<close> is true.\<close>

definition reset_state :: "bool \<Rightarrow> world \<Rightarrow> world" where
  "reset_state with_data w =
     (let w1 = set_state None w in
      if with_data
      then w1\<lparr>storage := (storage w1)(chat w1 := (storage w1 (chat w1))\<lparr>data := []\<rparr>)\<rparr>
      else w1)"

definition update_data :: "string \<Rightarrow> string \<Rightarrow> world \<Rightarrow> world" where
  "update_data k v w =
     w\<lparr>storage := (storage w)(chat w :=
          (storage w (chat w))\<lparr>data := AList.update k v (data (storage w (chat w)))\<rparr>)\<rparr>"

definition send_message :: "string \<Rightarrow> keyboard option \<Rightarrow> world \<Rightarrow> world" where
  "send_message txt markup w =
     w\<lparr>sent := sent w @ [\<lparr>message_chat = chat w, message_text = txt, reply_markup = markup\<rparr>]\<rparr>"

text \<open>The completion callback is the caller's code: the model records that it was
  awaited, and with which arguments.\<close>

definition invoke_callback :: "nat \<Rightarrow> pyval list \<Rightarrow> world \<Rightarrow> world" where
  "invoke_callback cb args w = w\<lparr>callback_calls := callback_calls w @ [(cb, args)]\<rparr>"

section \<open>BaseField\<close>

text \<open>\<^verbatim>\<open>__init__\<close>. The first argument is \<^verbatim>\<open>self\<close>, the object being initialised;
  the second is the constant \<^verbatim>\<open>DEFAULT_VALIDATION_ERROR_MESSAGE\<close> of
  \<^verbatim>\<open>aiogram_forms.const\<close>. An empty message and an empty validator list are falsy.\<close>

definition BaseField_init ::
  "nat \<Rightarrow> string \<Rightarrow> string \<Rightarrow> validator list option \<Rightarrow> string option \<Rightarrow> string option
     \<Rightarrow> base_field" where
  "BaseField_init self default_message lbl vs kb msg =
     \<lparr>field_id = self,
      field_key = None,
      field_state = None,
      label = lbl,
      validation_error_message =
        (case msg of None \<Rightarrow> default_message
         | Some m \<Rightarrow> if m = [] then default_message else m),
      validators = (case vs of None \<Rightarrow> [] | Some l \<Rightarrow> if l = [] then [] else l),
      reply_keyboard = (case kb of None \<Rightarrow> ReplyKeyboardRemove | Some k \<Rightarrow> ReplyKeyboardMarkup k)\<rparr>"

definition set_name :: "string \<Rightarrow> base_field \<Rightarrow> base_field" where
  "set_name attr fd = (if field_key fd = None then fd\<lparr>field_key := Some attr\<rparr> else fd)"

definition str_of_key :: "string option \<Rightarrow> string" where
  "str_of_key k = (case k of None \<Rightarrow> ''None'' | Some s \<Rightarrow> s)"

definition state_label :: "base_field \<Rightarrow> string" where
  "state_label fd = ''waiting_'' @ str_of_key (field_key fd)"

definition data_key :: "form \<Rightarrow> base_field \<Rightarrow> string" where
  "data_key frm fd = name frm @ '':'' @ str_of_key (field_key fd)"

definition validation_error :: "base_field \<Rightarrow> string" where
  "validation_error fd = validation_error_message fd"

text \<open>The loop of \<^verbatim>\<open>BaseField.validate\<close> over \<^verbatim>\<open>self._validators\<close>.\<close>

fun run_validators :: "validator list \<Rightarrow> string \<Rightarrow> world \<Rightarrow> bool \<times> world" where
  "run_validators [] v w = (True, w)"
| "run_validators (x # xs) v w =
     (let w1 = w\<lparr>validator_calls := validator_calls w @ [(validator_id x, v)]\<rparr> in
      if \<not> check x v then (False, w1) else run_validators xs v w1)"

definition validate :: "base_field \<Rightarrow> string \<Rightarrow> world \<Rightarrow> bool \<times> world" where
  "validate fd v w = run_validators (validators fd) v w"

section \<open>FormMeta\<close>

datatype class_attr = Field base_field | Other

text \<open>A class body is the list of its attributes in order. Two entries that hold a
  field with the same \<open>field_id\<close> hold the same object, which is what its first entry
  says. \<open>namespace_ids\<close> lists the identities of the fields of a class body.\<close>

fun namespace_ids :: "(string \<times> class_attr) list \<Rightarrow> nat list" where
  "namespace_ids [] = []"
| "namespace_ids ((attr, Field fd) # ns) = field_id fd # namespace_ids ns"
| "namespace_ids ((attr, Other) # ns) = namespace_ids ns"

fun find_object :: "nat \<Rightarrow> base_field list \<Rightarrow> base_field option" where
  "find_object oid [] = None"
| "find_object oid (fd # fs) = (if field_id fd = oid then Some fd else find_object oid fs)"

text \<open>\<^verbatim>\<open>type.__new__\<close> calls \<^verbatim>\<open>__set_name__\<close> on every attribute of the namespace
  that has it; \<^verbatim>\<open>_get_form_fields\<close> then collects the fields in namespace order. The
  second argument holds the objects that were given their name already: an object that
  is bound to a second attribute has a key by then and keeps it, and it is collected
  once more.\<close>

fun collect_fields :: "(string \<times> class_attr) list \<Rightarrow> base_field list \<Rightarrow> base_field list" where
  "collect_fields [] seen = []"
| "collect_fields ((attr, Field fd) # ns) seen =
     (case find_object (field_id fd) seen of
        Some obj \<Rightarrow> set_name attr obj # collect_fields ns seen
      | None \<Rightarrow> set_name attr fd # collect_fields ns (set_name attr fd # seen))"
| "collect_fields ((attr, Other) # ns) seen = collect_fields ns seen"

definition get_form_fields :: "(string \<times> class_attr) list \<Rightarrow> base_field list" where
  "get_form_fields namespace = collect_fields namespace []"

text \<open>\<^verbatim>\<open>FormMeta.__new__\<close>. The second argument is the class as
  \<^verbatim>\<open>super().__new__(mcs, name, bases, namespace)\<close> returns it: what \<^verbatim>\<open>_i18n\<close>,
  \<^verbatim>\<open>_registered\<close>, \<^verbatim>\<open>_callback\<close> and \<^verbatim>\<open>_callback_args\<close> resolve to through the bases
  (for a class derived from a form, what they are in that form). The method assigns
  \<^verbatim>\<open>_state\<close>, \<^verbatim>\<open>name\<close> and \<^verbatim>\<open>_fields\<close>, and nothing else. No statement of it raises.\<close>

definition FormMeta_new :: "string \<Rightarrow> form \<Rightarrow> (string \<times> class_attr) list \<Rightarrow> error + form" where
  "FormMeta_new nm cls namespace =
     Inr (cls\<lparr>form_state := None, name := nm, form_fields := get_form_fields namespace\<rparr>)"

text \<open>The class \<^verbatim>\<open>BaseForm\<close>: its body sets \<^verbatim>\<open>name\<close>, \<^verbatim>\<open>_fields\<close>, \<^verbatim>\<open>_i18n\<close>,
  \<^verbatim>\<open>_registered\<close>, \<^verbatim>\<open>_callback\<close> and \<^verbatim>\<open>_callback_args\<close>, and holds no field.\<close>

definition BaseForm_body :: form where
  "BaseForm_body =
     \<lparr>name = ''Form'',
      form_fields = [],
      form_state = None,
      i18n = None,
      registered = False,
      callback = None,
      callback_args = None\<rparr>"

definition BaseForm :: "error + form" where
  "BaseForm = FormMeta_new ''BaseForm'' BaseForm_body []"

text \<open>The dictionary comprehension \<^verbatim>\<open>{field.state_label: State() for field in cls._fields}\<close>:
  a key that comes again keeps its first position.\<close>

definition state_namespace :: "base_field list \<Rightarrow> (string \<times> unit) list" where
  "state_namespace fs = foldl (\<lambda>d fd. AList.update (state_label fd) () d) [] fs"

text \<open>aiogram's \<^verbatim>\<open>StatesGroupMeta.__new__\<close>: a \<^verbatim>\<open>State()\<close> made without a name takes the
  name of the attribute it is bound to, and its full name is the group's name, a colon
  and that name; \<^verbatim>\<open>states_names\<close> lists the full names in namespace order. A new class
  object is created at each call.\<close>

definition StatesGroup_new :: "string \<Rightarrow> (string \<times> unit) list \<Rightarrow> world \<Rightarrow> states_group \<times> world" where
  "StatesGroup_new gname namespace w =
     (\<lparr>group_id = classes_created w,
       group_name = gname,
       states_names = map (\<lambda>(attr, _). gname @ '':'' @ attr) namespace\<rparr>,
      w\<lparr>classes_created := classes_created w + 1\<rparr>)"

text \<open>\<^verbatim>\<open>field._state = state_name\<close> on the object \<open>oid\<close>: every position of the tuple
  that holds the object sees it.\<close>

definition set_field_state :: "nat \<Rightarrow> string \<Rightarrow> base_field list \<Rightarrow> base_field list" where
  "set_field_state oid s fs =
     map (\<lambda>fd. if field_id fd = oid then fd\<lparr>field_state := Some s\<rparr> else fd) fs"

text \<open>\<^verbatim>\<open>for field, state_name in zip(cls._fields, cls._state.states_names)\<close>: the first
  argument lists the objects of \<^verbatim>\<open>cls._fields\<close> in order, the last is the tuple.\<close>

fun assign_states :: "nat list \<Rightarrow> string list \<Rightarrow> base_field list \<Rightarrow> base_field list" where
  "assign_states (oid # oids) (s # ss) fs = assign_states oids ss (set_field_state oid s fs)"
| "assign_states [] ss fs = fs"
| "assign_states oids [] fs = fs"

text \<open>The property \<^verbatim>\<open>FormMeta.state\<close>. The first argument is the constant
  \<^verbatim>\<open>STATES_GROUP_SUFFIX\<close> of \<^verbatim>\<open>aiogram_forms.const\<close>. A class object is truthy, so
  \<^verbatim>\<open>not cls._state\<close> holds exactly while \<^verbatim>\<open>_state\<close> is \<^verbatim>\<open>None\<close>.\<close>

definition FormMeta_state :: "string \<Rightarrow> form \<Rightarrow> world \<Rightarrow> states_group \<times> form \<times> world" where
  "FormMeta_state suffix frm w =
     (case form_state frm of
        None \<Rightarrow>
          (let (g, w1) = StatesGroup_new (name frm @ suffix) (state_namespace (form_fields frm)) w
           in (g, frm\<lparr>form_state := Some g,
                      form_fields := assign_states (map field_id (form_fields frm))
                                       (states_names g) (form_fields frm)\<rparr>, w1))
      | Some g \<Rightarrow> (g, frm, w))"

section \<open>BaseForm\<close>

fun startswith :: "string \<Rightarrow> string \<Rightarrow> bool" where
  "startswith s [] = True"
| "startswith [] (c # cs) = False"
| "startswith (d # ds) (c # cs) = (d = c \<and> startswith ds cs)"

fun contains :: "string \<Rightarrow> string \<Rightarrow> bool" where
  "contains [] sub = (sub = [])"
| "contains (d # ds) sub = (startswith (d # ds) sub \<or> contains ds sub)"

definition register_handler :: "string \<Rightarrow> form \<Rightarrow> world \<Rightarrow> form \<times> world" where
  "register_handler suffix frm w =
     (if \<not> registered frm then
        (let (g, frm1, w1) = FormMeta_state suffix frm w;
             w2 = w1\<lparr>handlers := handlers w1 @
                    [\<lparr>handler_of = name frm1, handler_states = states_names g\<rparr>]\<rparr>;
             frm2 = foldl (\<lambda>f m. if contains (middleware_str m) ''i18n''
                                  then f\<lparr>i18n := Some m\<rparr> else f) frm1 (middlewares w2)
         in (frm2\<lparr>registered := True\<rparr>, w2))
      else (frm, w))"

text \<open>\<^verbatim>\<open>cls._i18n(text) if cls._i18n else text\<close>.\<close>

definition translate :: "form \<Rightarrow> string \<Rightarrow> string" where
  "translate frm txt = (case i18n frm of None \<Rightarrow> txt | Some m \<Rightarrow> middleware_call m txt)"

definition start_field_promotion :: "form \<Rightarrow> base_field \<Rightarrow> world \<Rightarrow> unit outcome" where
  "start_field_promotion frm fd w =
     (case field_state fd of
        None \<Rightarrow> (Inl AttributeError, frm, w)
      | Some s \<Rightarrow>
          (Inr (), frm,
           send_message (translate frm (label fd)) (Some (reply_keyboard fd))
             (set_state (Some s) w)))"

text \<open>The loop of \<^verbatim>\<open>get_current_field\<close>; falling out of it returns \<^verbatim>\<open>None\<close>.\<close>

fun find_field :: "base_field list \<Rightarrow> string option \<Rightarrow> error + base_field option" where
  "find_field [] st = Inr None"
| "find_field (fd # fs) st =
     (case field_state fd of
        None \<Rightarrow> Inl AttributeError
      | Some s \<Rightarrow> if Some s = st then Inr (Some fd) else find_field fs st)"

definition get_current_field :: "form \<Rightarrow> world \<Rightarrow> error + base_field option" where
  "get_current_field frm w = find_field (form_fields frm) (get_state w)"

text \<open>\<^verbatim>\<open>tuple.index\<close>: the first position holding the object, \<open>None\<close> (for
  \<^verbatim>\<open>ValueError\<close>) when there is none.\<close>

fun index :: "base_field list \<Rightarrow> base_field \<Rightarrow> nat option" where
  "index [] x = None"
| "index (y # ys) x =
     (if field_id y = field_id x then Some 0 else map_option Suc (index ys x))"

definition finish :: "form \<Rightarrow> world \<Rightarrow> unit outcome" where
  "finish frm w =
     (let w1 = reset_state False w in
      case callback frm of
        None \<Rightarrow> (Inr (), frm, w1)
      | Some cb \<Rightarrow>
          (case callback_args frm of
             Some (a # as) \<Rightarrow> (Inr (), frm, invoke_callback cb (a # as) w1)
           | _ \<Rightarrow> (Inr (), frm, invoke_callback cb [] w1)))"

definition handle_input :: "form \<Rightarrow> string \<Rightarrow> world \<Rightarrow> unit outcome" where
  "handle_input frm txt w =
     (case get_current_field frm w of
        Inl e \<Rightarrow> (Inl e, frm, w)
      | Inr None \<Rightarrow> (Inl AttributeError, frm, w)
      | Inr (Some fd) \<Rightarrow>
          (case validate fd txt w of
             (ok, w1) \<Rightarrow>
               if ok then
                 (let w2 = update_data (data_key frm fd) txt w1 in
                  case index (form_fields frm) fd of
                    None \<Rightarrow> (Inl ValueError, frm, w2)
                  | Some i \<Rightarrow>
                      (let next_field_index = i + 1 in
                       if next_field_index < length (form_fields frm)
                       then start_field_promotion frm (form_fields frm ! next_field_index) w2
                       else finish frm w2))
               else
                 (Inr (), frm, send_message (translate frm (validation_error fd)) None w1)))"

definition start :: "string \<Rightarrow> nat option \<Rightarrow> pyval list option \<Rightarrow> form \<Rightarrow> world \<Rightarrow> unit outcome" where
  "start suffix cb args frm w =
     (let frm1 = (case cb of
                    Some c \<Rightarrow> frm\<lparr>callback := Some c, callback_args := args\<rparr>
                  | None \<Rightarrow> frm);
          (frm2, w2) = register_handler suffix frm1 w
      in case form_fields frm2 of
           [] \<Rightarrow> (Inl IndexError, frm2, w2)
         | fd # _ \<Rightarrow> start_field_promotion frm2 fd w2)"

text \<open>\<^verbatim>\<open>get_data\<close>: one \<^verbatim>\<open>state.proxy()\<close> is entered, and the comprehension reads
  \<^verbatim>\<open>data.get(field.data_key)\<close> for every field, \<open>None\<close> being Python's \<^verbatim>\<open>None\<close>.\<close>

definition get_data :: "form \<Rightarrow> world \<Rightarrow> (string \<times> string option) list outcome" where
  "get_data frm w =
     (let w1 = w\<lparr>proxies := proxies w + 1\<rparr>;
          d = data (storage w1 (chat w1))
      in (Inr (foldl (\<lambda>r fd. AList.update (data_key frm fd) (map_of d (data_key frm fd)) r)
                 [] (form_fields frm)),
          frm, w1))"

text \<open>What \<^verbatim>\<open>FormMeta.state\<close> establishes for a form whose fields are different objects
  with different keys: every field has a state name, and no two fields share one.\<close>

definition compiled :: "form \<Rightarrow> bool" where
  "compiled frm \<longleftrightarrow>
     distinct (map field_id (form_fields frm)) \<and>
     None \<notin> set (map field_state (form_fields frm)) \<and>
     distinct (map field_state (form_fields frm))"

section \<open>Sequences of calls\<close>

text \<open>A call of one of the classmethods, made in the context of a chat:
  \<^verbatim>\<open>start\<close>, a message routed to \<^verbatim>\<open>_handle_input\<close>, \<^verbatim>\<open>get_data\<close>, \<^verbatim>\<open>finish\<close>.
  The class and the world keep whatever the call did, also when it raised.\<close>

datatype event =
    Start int "nat option" "pyval list option"
  | Message int string
  | GetData int
  | Finish int

definition in_chat :: "int \<Rightarrow> world \<Rightarrow> world" where
  "in_chat c w = w\<lparr>chat := c\<rparr>"

fun step :: "string \<Rightarrow> form \<times> world \<Rightarrow> event \<Rightarrow> form \<times> world" where
  "step suffix (frm, w) (Start c cb args) = snd (start suffix cb args frm (in_chat c w))"
| "step suffix (frm, w) (Message c txt) = snd (handle_input frm txt (in_chat c w))"
| "step suffix (frm, w) (GetData c) = snd (get_data frm (in_chat c w))"
| "step suffix (frm, w) (Finish c) = snd (finish frm (in_chat c w))"

definition run :: "string \<Rightarrow> event list \<Rightarrow> form \<times> world \<Rightarrow> form \<times> world" where
  "run suffix evs s = foldl (step suffix) s evs"


section \<open>A sign-up form\<close>

text \<open>The form of the scenarios: a name that must not be empty, then an age that must
  be a short string of digits.\<close>

definition nonempty :: validator where
  "nonempty = \<lparr>validator_id = 0, check = (\<lambda>s. s \<noteq> [])\<rparr>"

definition numeric :: validator where
  "numeric = \<lparr>validator_id = 1, check = (\<lambda>s. list_all (\<lambda>c. c \<in> set ''0123456789'') s)\<rparr>"

definition short :: validator where
  "short = \<lparr>validator_id = 2, check = (\<lambda>s. length s < 4)\<rparr>"

definition signup_namespace :: "(string \<times> class_attr) list" where
  "signup_namespace =
     [(''name'', Field (BaseField_init 10 ''Wrong input'' ''Your name?'' (Some [nonempty]) None None)),
      (''helper'', Other),
      (''age'', Field (BaseField_init 11 ''Wrong input'' ''Your age?''
                  (Some [nonempty, numeric, short]) None (Some ''Age is a number'')))]"

definition Signup :: form where
  "Signup = projr (FormMeta_new ''Signup'' (projr BaseForm) signup_namespace)"

text \<open>A form that binds, under the attribute \<^verbatim>\<open>first\<close>, a field that was the \<^verbatim>\<open>name\<close>
  of another form before (its key is set), and a fresh field under \<^verbatim>\<open>name\<close>.\<close>

definition reused_namespace :: "(string \<times> class_attr) list" where
  "reused_namespace =
     [(''first'', Field (set_name ''name''
                   (BaseField_init 20 ''Wrong input'' ''Your first name?'' None None None))),
      (''name'', Field (BaseField_init 21 ''Wrong input'' ''Your name?'' None None None))]"

definition Reused :: form where
  "Reused = projr (FormMeta_new ''Reused'' (projr BaseForm) reused_namespace)"

definition world0 :: world where
  "world0 =
     \<lparr>chat = 0,
      storage = (\<lambda>c. \<lparr>current_state = None, data = []\<rparr>),
      proxies = 0,
      sent = [],
      handlers = [],
      middlewares = [],
      validator_calls = [],
      callback_calls = [],
      classes_created = 0\<rparr>"

text \<open>The class and the world after \<^verbatim>\<open>start\<close> in chat 7 and the answer to the first
  question: \<open>awaiting_age\<close> is the world in which chat 7 sends its next message,
  \<open>elsewhere\<close> the one in which chat 8, which never started the form, sends one.\<close>

definition signup_events :: "event list" where
  "signup_events = [Start 7 (Some 1) None, Message 7 ''Alice'']"

definition Signup_started :: form where
  "Signup_started = fst (run ''StatesGroup'' signup_events (Signup, world0))"

definition awaiting_age :: world where
  "awaiting_age = in_chat 7 (snd (run ''StatesGroup'' signup_events (Signup, world0)))"

definition elsewhere :: world where
  "elsewhere = in_chat 8 (snd (run ''StatesGroup'' signup_events (Signup, world0)))"

text \<open>\<^verbatim>\<open>class Child(Signup): pass\<close>, declared after the sign-up form was started.\<close>

definition Child :: form where
  "Child = projr (FormMeta_new ''Child'' Signup_started [])"

section \<open>Properties\<close>

subsection \<open>Resolving the current field, validating and handling input\<close>

lemma find_field_nth:
  "i < length fs \<Longrightarrow> None \<notin> set (map field_state fs) \<Longrightarrow> distinct (map field_state fs) \<Longrightarrow>
   find_field fs (field_state (fs ! i)) = Inr (Some (fs ! i))"
proof (induction fs arbitrary: i)
  case Nil
  then show ?case by simp
next
  case (Cons fd fs)
  from Cons.prems(2) obtain s where s: "field_state fd = Some s" by (cases "field_state fd") auto
  show ?case
  proof (cases i)
    case 0
    then show ?thesis by (simp add: s)
  next
    case (Suc j)
    with Cons.prems have j: "j < length fs" by simp
    then have "field_state (fs ! j) \<in> set (map field_state fs)" by simp
    with Cons.prems(3) have "field_state (fs ! j) \<noteq> Some s" using s by auto
    moreover have "find_field fs (field_state (fs ! j)) = Inr (Some (fs ! j))"
      using Cons.IH[OF j] Cons.prems by simp
    ultimately show ?thesis using Suc by (auto simp: s)
  qed
qed

lemma index_nth:
  "i < length fs \<Longrightarrow> distinct (map field_id fs) \<Longrightarrow> index fs (fs ! i) = Some i"
proof (induction fs arbitrary: i)
  case Nil
  then show ?case by simp
next
  case (Cons fd fs)
  show ?case
  proof (cases i)
    case 0
    then show ?thesis by simp
  next
    case (Suc j)
    with Cons.prems have j: "j < length fs" by simp
    then have "field_id (fs ! j) \<in> set (map field_id fs)" by simp
    with Cons.prems(2) have "field_id fd \<noteq> field_id (fs ! j)" by auto
    then show ?thesis using Suc Cons.IH[OF j] Cons.prems(2) by simp
  qed
qed

lemma find_field_unmatched:
  "st \<notin> set (map field_state fs) \<Longrightarrow>
   find_field fs st = Inr None \<or> find_field fs st = Inl AttributeError"
  by (induction fs) (auto split: option.splits)

lemma current_field_awaited:
  assumes "compiled frm" and "i < length (form_fields frm)"
    and "get_state w = field_state (form_fields frm ! i)"
  shows "get_current_field frm w = Inr (Some (form_fields frm ! i))"
    and "index (form_fields frm) (form_fields frm ! i) = Some i"
  using assms by (simp_all add: compiled_def get_current_field_def find_field_nth index_nth)

lemma run_validators_result:
  "run_validators vs v w =
     (list_all (\<lambda>x. check x v) vs,
      w\<lparr>validator_calls := validator_calls w @
          map (\<lambda>x. (validator_id x, v))
            (takeWhile (\<lambda>x. check x v) vs @ take 1 (dropWhile (\<lambda>x. check x v) vs))\<rparr>)"
  by (induction vs arbitrary: w) (simp_all add: Let_def)

lemma validate_result:
  "validate fd v w =
     (list_all (\<lambda>x. check x v) (validators fd),
      w\<lparr>validator_calls := validator_calls w @
          map (\<lambda>x. (validator_id x, v))
            (takeWhile (\<lambda>x. check x v) (validators fd) @
             take 1 (dropWhile (\<lambda>x. check x v) (validators fd)))\<rparr>)"
  by (simp add: validate_def run_validators_result)

text \<open>C1. \<^verbatim>\<open>BaseField.validate\<close> returns true exactly when every validator of the field
  accepts the value. The validators it invokes are, in order, those that accept the
  value up to the first that rejects it, and that one: no validator after the first
  failing one is invoked. Nothing else of the world changes.\<close>

theorem validate_all_short_circuit:
  "fst (validate fd v w) = list_all (\<lambda>x. check x v) (validators fd) \<and>
   snd (validate fd v w) =
     w\<lparr>validator_calls := validator_calls w @ map (\<lambda>x. (validator_id x, v))
       (takeWhile (\<lambda>x. check x v) (validators fd) @
        take 1 (dropWhile (\<lambda>x. check x v) (validators fd)))\<rparr>"
  by (simp add: validate_result)


text \<open>C5, as the code has it. When the stored state of the conversation is the state of no
  field of the form, \<^verbatim>\<open>_handle_input\<close> makes no progress: the class and the world are
  exactly as before (no state change, no data written, nothing sent). But it does not
  return normally: it raises \<^verbatim>\<open>AttributeError\<close>, from \<^verbatim>\<open>field.validate\<close> on the
  \<^verbatim>\<open>None\<close> that \<^verbatim>\<open>get_current_field\<close> returned.\<close>

theorem unresolved_field_raises:
  assumes "get_state w \<notin> set (map field_state (form_fields frm))"
  shows "handle_input frm v w = (Inl AttributeError, frm, w)"
  using find_field_unmatched[OF assms]
  by (auto simp: handle_input_def get_current_field_def)

lemma finish_result:
  "finish frm w =
     (Inr (), frm,
      (set_state None w)\<lparr>callback_calls := callback_calls w @
         (case callback frm of None \<Rightarrow> []
          | Some cb \<Rightarrow> [(cb, case callback_args frm of None \<Rightarrow> [] | Some a \<Rightarrow> a)])\<rparr>)"
  by (auto simp: finish_def reset_state_def invoke_callback_def set_state_def Let_def
      split: option.splits list.splits)

text \<open>C2, as the code has it. In a conversation that awaits the last field of a compiled
  form, a value that the field's validators accept makes \<^verbatim>\<open>_handle_input\<close> return
  normally, write the value under the field's data key, reset the conversation's state
  to \<^verbatim>\<open>None\<close> and send nothing. The stored callback, when there is one, is awaited
  exactly once, with the stored callback arguments (with none when they are \<^verbatim>\<open>None\<close> or
  empty): the collected data are not passed to it, they stay in the storage.\<close>

theorem last_field_success_finishes:
  assumes "compiled frm" and "form_fields frm \<noteq> []"
    and "get_state w = field_state (last (form_fields frm))"
    and "list_all (\<lambda>x. check x v) (validators (last (form_fields frm)))"
  shows "\<exists>w'. handle_input frm v w = (Inr (), frm, w') \<and>
           chat w' = chat w \<and>
           current_state (storage w' (chat w)) = None \<and>
           data (storage w' (chat w)) =
             AList.update (data_key frm (last (form_fields frm))) v (data (storage w (chat w))) \<and>
           callback_calls w' = callback_calls w @
             (case callback frm of None \<Rightarrow> []
              | Some cb \<Rightarrow> [(cb, case callback_args frm of None \<Rightarrow> [] | Some a \<Rightarrow> a)]) \<and>
           sent w' = sent w"
proof -
  define fd where "fd = last (form_fields frm)"
  define i where "i = length (form_fields frm) - 1"
  have i: "i < length (form_fields frm)" using assms(2) by (simp add: i_def)
  have l: "form_fields frm ! i = fd" using assms(2) by (simp add: last_conv_nth i_def fd_def)
  have cur: "get_current_field frm w = Inr (Some fd)"
    and idx: "index (form_fields frm) fd = Some i"
    using current_field_awaited[OF assms(1) i] assms(3) by (simp_all add: l fd_def[symmetric])
  have ok: "list_all (\<lambda>x. check x v) (validators fd)" using assms(4) by (simp add: fd_def)
  have nxt: "\<not> i + 1 < length (form_fields frm)" using assms(2) by (simp add: i_def)
  have "handle_input frm v w =
          finish frm (update_data (data_key frm fd) v (snd (validate fd v w)))"
    using nxt by (simp add: handle_input_def cur idx validate_result ok Let_def)
  then show ?thesis
    unfolding fd_def[symmetric]
    by (simp add: finish_result validate_result update_data_def set_state_def)
qed


subsection \<open>finish\<close>

text \<open>C7. \<^verbatim>\<open>finish\<close> returns normally and changes the storage in one place only: the
  state of the current conversation becomes \<^verbatim>\<open>None\<close>. The data of the conversation
  (and every other conversation) are as before.\<close>

theorem finish_clears_state_only:
  "fst (finish frm w) = Inr () \<and>
   fst (snd (finish frm w)) = frm \<and>
   chat (snd (snd (finish frm w))) = chat w \<and>
   storage (snd (snd (finish frm w))) =
     (storage w)(chat w := (storage w (chat w))\<lparr>current_state := None\<rparr>) \<and>
   data (storage (snd (snd (finish frm w))) (chat w)) = data (storage w (chat w))"
  by (simp add: finish_result set_state_def)

subsection \<open>State compilation\<close>

lemma update_fresh: "k \<notin> fst ` set d \<Longrightarrow> AList.update k v d = d @ [(k, v)]"
  by (induction d) auto

lemma foldl_update_distinct:
  "distinct (map fst d @ map f xs) \<Longrightarrow>
   map fst (foldl (\<lambda>d x. AList.update (f x) (g x) d) d xs) = map fst d @ map f xs"
proof (induction xs arbitrary: d)
  case Nil
  then show ?case by simp
next
  case (Cons x xs)
  have fresh: "f x \<notin> fst ` set d" using Cons.prems by auto
  have "distinct (map fst (d @ [(f x, g x)]) @ map f xs)" using Cons.prems by auto
  from Cons.IH[OF this] show ?case by (simp add: update_fresh[OF fresh])
qed

lemma state_namespace_keys:
  "distinct (map state_label fs) \<Longrightarrow> map fst (state_namespace fs) = map state_label fs"
  unfolding state_namespace_def
  using foldl_update_distinct[of "[]" state_label fs "\<lambda>_. ()"] by simp

lemma set_field_state_ids: "map field_id (set_field_state oid s fs) = map field_id fs"
  by (induction fs) (simp_all add: set_field_state_def)

lemma set_field_state_other:
  "oid \<notin> field_id ` set fs \<Longrightarrow> set_field_state oid s fs = fs"
  by (induction fs) (simp_all add: set_field_state_def)

lemma set_field_state_append:
  "set_field_state oid s (xs @ ys) = set_field_state oid s xs @ set_field_state oid s ys"
  by (simp add: set_field_state_def)

lemma set_field_state_Cons:
  "set_field_state (field_id fd) s (fd # fs) =
     fd\<lparr>field_state := Some s\<rparr> # set_field_state (field_id fd) s fs"
  by (simp add: set_field_state_def)

lemma assign_states_ids: "map field_id (assign_states oids ss fs) = map field_id fs"
  by (induction oids ss fs rule: assign_states.induct) (simp_all add: set_field_state_ids)

lemma assign_states_positional:
  "length ss = length fs \<Longrightarrow> distinct (map field_id (pre @ fs)) \<Longrightarrow>
   assign_states (map field_id fs) ss (pre @ fs) =
     pre @ map2 (\<lambda>fd s. fd\<lparr>field_state := Some s\<rparr>) fs ss"
proof (induction fs arbitrary: ss pre)
  case Nil
  then show ?case by simp
next
  case (Cons fd fs)
  from Cons.prems(1) obtain s ss' where ss: "ss = s # ss'" and len: "length ss' = length fs"
    by (cases ss) auto
  have a: "field_id fd \<notin> field_id ` set pre" and b: "field_id fd \<notin> field_id ` set fs"
    using Cons.prems(2) by auto
  have step: "set_field_state (field_id fd) s (pre @ fd # fs) =
              (pre @ [fd\<lparr>field_state := Some s\<rparr>]) @ fs"
    by (simp add: set_field_state_append set_field_state_Cons
        set_field_state_other[OF a] set_field_state_other[OF b])
  have d: "distinct (map field_id ((pre @ [fd\<lparr>field_state := Some s\<rparr>]) @ fs))"
    using Cons.prems(2) by simp
  show ?case
    using Cons.IH[OF len d] by (simp add: ss step)
qed

lemma map2_states:
  "length ss = length fs \<Longrightarrow>
   map field_state (map2 (\<lambda>fd s. fd\<lparr>field_state := Some s\<rparr>) fs ss) = map Some ss"
  by (induction fs arbitrary: ss) (auto simp: length_Suc_conv)

lemma distinct_state_names:
  "distinct (map state_label fs) \<Longrightarrow>
   distinct (map (\<lambda>fd. nm @ suffix @ '':'' @ state_label fd) fs)"
  by (auto simp: distinct_map inj_on_def)

lemma distinct_map_Some: "distinct xs \<Longrightarrow> distinct (map Some xs)"
  by (simp add: distinct_map)

lemma FormMeta_state_fresh:
  assumes "form_state frm = None" and "distinct (map state_label (form_fields frm))"
  shows "FormMeta_state suffix frm w =
           (\<lparr>group_id = classes_created w, group_name = name frm @ suffix,
             states_names = map (\<lambda>fd. name frm @ suffix @ '':'' @ state_label fd) (form_fields frm)\<rparr>,
            frm\<lparr>form_state := Some \<lparr>group_id = classes_created w, group_name = name frm @ suffix,
                   states_names = map (\<lambda>fd. name frm @ suffix @ '':'' @ state_label fd) (form_fields frm)\<rparr>,
                form_fields := assign_states (map field_id (form_fields frm))
                   (map (\<lambda>fd. name frm @ suffix @ '':'' @ state_label fd) (form_fields frm))
                   (form_fields frm)\<rparr>,
            w\<lparr>classes_created := classes_created w + 1\<rparr>)"
proof -
  have "map (\<lambda>(attr, _). (name frm @ suffix) @ '':'' @ attr) (state_namespace (form_fields frm)) =
        map (\<lambda>a. (name frm @ suffix) @ '':'' @ a) (map fst (state_namespace (form_fields frm)))"
    by (simp add: case_prod_unfold)
  also have "\<dots> = map (\<lambda>fd. name frm @ suffix @ '':'' @ state_label fd) (form_fields frm)"
    by (simp add: state_namespace_keys[OF assms(2)])
  finally show ?thesis
    using assms(1) by (simp add: FormMeta_state_def StatesGroup_new_def)
qed

lemma FormMeta_state_frame:
  "\<exists>g fs. FormMeta_state suffix frm w =
            (g, frm\<lparr>form_state := Some g, form_fields := fs\<rparr>,
             w\<lparr>classes_created := classes_created w + (if form_state frm = None then 1 else 0)\<rparr>) \<and>
          (form_fields frm = [] \<longrightarrow> fs = [])"
proof (cases "form_state frm")
  case None
  define g where "g = fst (StatesGroup_new (name frm @ suffix) (state_namespace (form_fields frm)) w)"
  show ?thesis
    apply (rule exI[of _ g])
    apply (rule exI[of _ "assign_states (map field_id (form_fields frm)) (states_names g)
                            (form_fields frm)"])
    using None by (auto simp: FormMeta_state_def StatesGroup_new_def g_def)
next
  case (Some g)
  show ?thesis
    apply (rule exI[of _ g])
    apply (rule exI[of _ "form_fields frm"])
    using Some by (simp add: FormMeta_state_def)
qed

lemma FormMeta_state_memo:
  "form_state frm = Some g \<Longrightarrow> FormMeta_state suffix frm w = (g, frm, w)"
  by (simp add: FormMeta_state_def)

lemma FormMeta_state_positional:
  assumes "form_state frm = None" and "distinct (map field_id (form_fields frm))"
    and "distinct (map state_label (form_fields frm))"
  shows "fst (FormMeta_state suffix frm w) =
           \<lparr>group_id = classes_created w, group_name = name frm @ suffix,
            states_names = map (\<lambda>fd. name frm @ suffix @ '':'' @ state_label fd) (form_fields frm)\<rparr>"
    and "form_fields (fst (snd (FormMeta_state suffix frm w))) =
           map2 (\<lambda>fd s. fd\<lparr>field_state := Some s\<rparr>) (form_fields frm)
             (map (\<lambda>fd. name frm @ suffix @ '':'' @ state_label fd) (form_fields frm))"
proof -
  show "fst (FormMeta_state suffix frm w) =
           \<lparr>group_id = classes_created w, group_name = name frm @ suffix,
            states_names = map (\<lambda>fd. name frm @ suffix @ '':'' @ state_label fd) (form_fields frm)\<rparr>"
    by (simp add: FormMeta_state_fresh[OF assms(1,3)])
  define ns where "ns = map (\<lambda>fd. name frm @ suffix @ '':'' @ state_label fd) (form_fields frm)"
  have len: "length ns = length (form_fields frm)" by (simp add: ns_def)
  have d: "distinct (map field_id ([] @ form_fields frm))" using assms(2) by simp
  have "assign_states (map field_id (form_fields frm)) ns ([] @ form_fields frm) =
        [] @ map2 (\<lambda>fd s. fd\<lparr>field_state := Some s\<rparr>) (form_fields frm) ns"
    using len d by (rule assign_states_positional)
  then show "form_fields (fst (snd (FormMeta_state suffix frm w))) =
           map2 (\<lambda>fd s. fd\<lparr>field_state := Some s\<rparr>) (form_fields frm)
             (map (\<lambda>fd. name frm @ suffix @ '':'' @ state_label fd) (form_fields frm))"
    by (simp add: FormMeta_state_fresh[OF assms(1,3)] ns_def)
qed

text \<open>C4, as the code has it. For every form, the first access to \<^verbatim>\<open>FormMeta.state\<close>
  returns a class, and a second access returns the same class object and changes
  neither the form nor the world: no class is created again (one is created by the
  first access when the form was not compiled yet). When the form was not compiled yet
  and its fields are different objects with different state labels, the state names are
  those of the fields, in declaration order and without repetition, and the compiled
  form is the form with field \<open>i\<close> assigned state name \<open>i\<close>: the fields are the same, in
  the same order, and only their state is set.\<close>

theorem state_compilation_memoized:
  "\<exists>g frm1 w1.
     FormMeta_state suffix frm w = (g, frm1, w1) \<and>
     FormMeta_state suffix frm1 w1 = (g, frm1, w1) \<and>
     classes_created w1 = classes_created w + (if form_state frm = None then 1 else 0) \<and>
     (form_state frm = None \<and> distinct (map field_id (form_fields frm)) \<and>
      distinct (map state_label (form_fields frm)) \<longrightarrow>
        states_names g =
          map (\<lambda>fd. name frm @ suffix @ '':'' @ state_label fd) (form_fields frm) \<and>
        distinct (states_names g) \<and>
        frm1 = frm\<lparr>form_state := Some g,
                   form_fields := map2 (\<lambda>fd s. fd\<lparr>field_state := Some s\<rparr>)
                                    (form_fields frm) (states_names g)\<rparr> \<and>
        length (form_fields frm1) = length (form_fields frm) \<and>
        map field_state (form_fields frm1) = map Some (states_names g))"
proof -
  obtain g fs where st: "FormMeta_state suffix frm w =
      (g, frm\<lparr>form_state := Some g, form_fields := fs\<rparr>,
       w\<lparr>classes_created := classes_created w + (if form_state frm = None then 1 else 0)\<rparr>)"
    using FormMeta_state_frame by blast
  let ?frm1 = "frm\<lparr>form_state := Some g, form_fields := fs\<rparr>"
  let ?w1 = "w\<lparr>classes_created := classes_created w + (if form_state frm = None then 1 else 0)\<rparr>"
  have memo: "FormMeta_state suffix ?frm1 ?w1 = (g, ?frm1, ?w1)"
    by (rule FormMeta_state_memo) simp
  have cc: "classes_created ?w1 = classes_created w + (if form_state frm = None then 1 else 0)"
    by simp
  have pos: "states_names g =
          map (\<lambda>fd. name frm @ suffix @ '':'' @ state_label fd) (form_fields frm) \<and>
        distinct (states_names g) \<and>
        ?frm1 = frm\<lparr>form_state := Some g,
                   form_fields := map2 (\<lambda>fd s. fd\<lparr>field_state := Some s\<rparr>)
                                    (form_fields frm) (states_names g)\<rparr> \<and>
        length (form_fields ?frm1) = length (form_fields frm) \<and>
        map field_state (form_fields ?frm1) = map Some (states_names g)"
    if h: "form_state frm = None" "distinct (map field_id (form_fields frm))"
      "distinct (map state_label (form_fields frm))"
  proof -
    have g: "states_names g =
          map (\<lambda>fd. name frm @ suffix @ '':'' @ state_label fd) (form_fields frm)"
      using FormMeta_state_positional(1)[OF h, of suffix w] by (simp add: st)
    have fs: "fs = map2 (\<lambda>fd s. fd\<lparr>field_state := Some s\<rparr>) (form_fields frm) (states_names g)"
      using FormMeta_state_positional(2)[OF h, of suffix w] by (simp add: st g)
    have len: "length (states_names g) = length (form_fields frm)" by (simp add: g)
    have d: "distinct (states_names g)"
      unfolding g using h(3) by (rule distinct_state_names)
    have l: "length fs = length (form_fields frm)" by (simp add: fs len)
    have s: "map field_state fs = map Some (states_names g)"
      unfolding fs using len by (rule map2_states)
    show ?thesis using g d fs l s by simp
  qed
  show ?thesis
    apply (rule exI[of _ g])
    apply (rule exI[of _ ?frm1])
    apply (rule exI[of _ ?w1])
    using st memo cc pos by blast
qed

lemma FormMeta_state_compiled:
  assumes "form_state frm = None" and "distinct (map state_label (form_fields frm))"
    and "distinct (map field_id (form_fields frm))"
  shows "compiled (fst (snd (FormMeta_state suffix frm w)))"
proof -
  define ns where "ns = map (\<lambda>fd. name frm @ suffix @ '':'' @ state_label fd) (form_fields frm)"
  define fs where "fs = map2 (\<lambda>fd s. fd\<lparr>field_state := Some s\<rparr>) (form_fields frm) ns"
  have d: "distinct ns"
    unfolding ns_def using assms(2) by (rule distinct_state_names)
  have len: "length ns = length (form_fields frm)" by (simp add: ns_def)
  have st: "map field_state fs = map Some ns"
    unfolding fs_def using len by (rule map2_states)
  have eq: "form_fields (fst (snd (FormMeta_state suffix frm w))) = fs"
    unfolding fs_def ns_def by (rule FormMeta_state_positional(2)[OF assms(1,3,2)])
  have "map field_id (form_fields (fst (snd (FormMeta_state suffix frm w)))) =
        map field_id (form_fields frm)"
    by (simp add: FormMeta_state_fresh[OF assms(1,2)] assign_states_ids)
  then have ids: "distinct (map field_id fs)"
    using assms(3) by (simp add: eq)
  have sts: "distinct (map field_state fs)"
    unfolding st using d by (rule distinct_map_Some)
  have non: "None \<notin> set (map field_state fs)"
    unfolding st by auto
  show ?thesis
    unfolding compiled_def eq using ids sts non by simp
qed

text \<open>The two hypotheses on the fields hold for every class built by the metaclass
  from a class body (a dictionary, so its attribute names differ) whose fields are
  different objects and fresh, that is, have no key yet: \<^verbatim>\<open>__set_name__\<close> gives each the
  name of its attribute.\<close>

lemma set_name_id: "field_id (set_name attr fd) = field_id fd"
  by (simp add: set_name_def)

lemma find_object_id: "find_object oid seen = Some obj \<Longrightarrow> field_id obj = oid"
  by (induction seen) (auto split: if_splits)

lemma find_object_None: "oid \<notin> field_id ` set seen \<Longrightarrow> find_object oid seen = None"
  by (induction seen) auto

lemma collect_fields_ids: "map field_id (collect_fields ns seen) = namespace_ids ns"
  by (induction ns seen rule: collect_fields.induct)
    (auto simp: set_name_id find_object_id split: option.split)

lemma collect_fields_labels:
  "list_all (\<lambda>p. case snd p of Field fd \<Rightarrow> field_key fd = None | Other \<Rightarrow> True) ns \<Longrightarrow>
   distinct (namespace_ids ns) \<Longrightarrow> set (namespace_ids ns) \<inter> field_id ` set seen = {} \<Longrightarrow>
   map state_label (collect_fields ns seen) =
     map ((@) ''waiting_'') (map fst (filter (\<lambda>p. snd p \<noteq> Other) ns))"
proof (induction ns seen rule: collect_fields.induct)
  case (1 seen)
  then show ?case by simp
next
  case (2 attr fd ns seen)
  have none: "find_object (field_id fd) seen = None"
    using "2.prems"(3) by (intro find_object_None) auto
  have key: "field_key fd = None" using "2.prems"(1) by simp
  have rest: "list_all (\<lambda>p. case snd p of Field fd \<Rightarrow> field_key fd = None | Other \<Rightarrow> True) ns"
    and dist: "distinct (namespace_ids ns)"
    using "2.prems"(1,2) by simp_all
  have disj: "set (namespace_ids ns) \<inter> field_id ` set (set_name attr fd # seen) = {}"
    using "2.prems"(2,3) by (auto simp: set_name_id)
  have "map state_label (collect_fields ns (set_name attr fd # seen)) =
        map ((@) ''waiting_'') (map fst (filter (\<lambda>p. snd p \<noteq> Other) ns))"
    using "2.IH"(1)[OF none rest dist disj] .
  moreover have "state_label (set_name attr fd) = ''waiting_'' @ attr"
    using key by (simp add: set_name_def state_label_def str_of_key_def)
  ultimately show ?case
    by (simp add: none)
next
  case (3 attr ns seen)
  then show ?case by simp
qed

lemma distinct_prefixed: "distinct xs \<Longrightarrow> distinct (map ((@) p) xs)"
  by (simp add: distinct_map inj_on_def)

lemma fresh_fields_distinct_labels:
  assumes "distinct (map fst ns)"
    and "list_all (\<lambda>p. case snd p of Field fd \<Rightarrow> field_key fd = None | Other \<Rightarrow> True) ns"
    and "distinct (namespace_ids ns)"
  shows "distinct (map state_label (get_form_fields ns))"
    and "distinct (map field_id (get_form_fields ns))"
proof -
  have "distinct (map fst (filter (\<lambda>p. snd p \<noteq> Other) ns))"
    using assms(1) by (rule distinct_map_filter)
  then have "distinct (map ((@) ''waiting_'') (map fst (filter (\<lambda>p. snd p \<noteq> Other) ns)))"
    by (rule distinct_prefixed)
  moreover have "map state_label (collect_fields ns []) =
     map ((@) ''waiting_'') (map fst (filter (\<lambda>p. snd p \<noteq> Other) ns))"
    using assms(2,3) by (rule collect_fields_labels) simp
  ultimately show "distinct (map state_label (get_form_fields ns))"
    by (simp only: get_form_fields_def)
  show "distinct (map field_id (get_form_fields ns))"
    using assms(3) by (simp only: get_form_fields_def collect_fields_ids)
qed

subsection \<open>Registration and start\<close>

lemma i18n_fold:
  "\<exists>x. foldl (\<lambda>f m. if P m then f\<lparr>i18n := Some m\<rparr> else f) frm ms = frm\<lparr>i18n := x\<rparr>"
proof (induction ms arbitrary: frm)
  case Nil
  show ?case by (rule exI[of _ "i18n frm"]) simp
next
  case (Cons m ms)
  show ?case
  proof (cases "P m")
    case True
    from Cons.IH[of "frm\<lparr>i18n := Some m\<rparr>"] show ?thesis using True by simp
  next
    case False
    from Cons.IH[of frm] show ?thesis using False by simp
  qed
qed

lemma register_handler_registered:
  "registered frm \<Longrightarrow> register_handler suffix frm w = (frm, w)"
  by (simp add: register_handler_def)

lemma register_handler_fresh:
  assumes "\<not> registered frm"
  shows "\<exists>g fs x c. register_handler suffix frm w =
           (frm\<lparr>form_state := Some g, form_fields := fs, i18n := x, registered := True\<rparr>,
            w\<lparr>classes_created := c,
              handlers := handlers w @ [\<lparr>handler_of = name frm, handler_states = states_names g\<rparr>]\<rparr>) \<and>
           (form_fields frm = [] \<longrightarrow> fs = [])"
proof -
  obtain g fs where st: "FormMeta_state suffix frm w =
      (g, frm\<lparr>form_state := Some g, form_fields := fs\<rparr>,
       w\<lparr>classes_created := classes_created w + (if form_state frm = None then 1 else 0)\<rparr>)"
    and e: "form_fields frm = [] \<longrightarrow> fs = []"
    using FormMeta_state_frame by blast
  let ?frm1 = "frm\<lparr>form_state := Some g, form_fields := fs\<rparr>"
  let ?w2 = "w\<lparr>classes_created := classes_created w + (if form_state frm = None then 1 else 0),
              handlers := handlers w @ [\<lparr>handler_of = name frm, handler_states = states_names g\<rparr>]\<rparr>"
  obtain x where x: "foldl (\<lambda>f m. if contains (middleware_str m) ''i18n''
                                  then f\<lparr>i18n := Some m\<rparr> else f) ?frm1 (middlewares w)
                     = ?frm1\<lparr>i18n := x\<rparr>"
    using i18n_fold[of "\<lambda>m. contains (middleware_str m) ''i18n''" ?frm1 "middlewares w"] by blast
  have "register_handler suffix frm w = (?frm1\<lparr>i18n := x, registered := True\<rparr>, ?w2)"
    using assms by (simp add: register_handler_def st x)
  with e show ?thesis by blast
qed

lemma register_handler_props:
  "registered (fst (register_handler suffix frm w))"
  "callback (fst (register_handler suffix frm w)) = callback frm"
  "callback_args (fst (register_handler suffix frm w)) = callback_args frm"
  "length (handlers (snd (register_handler suffix frm w))) =
     length (handlers w) + (if registered frm then 0 else 1)"
  "form_fields frm = [] \<Longrightarrow> form_fields (fst (register_handler suffix frm w)) = []"
proof -
  show "registered (fst (register_handler suffix frm w))"
    using register_handler_fresh[of frm suffix w] register_handler_registered[of frm suffix w]
    by (cases "registered frm") auto
  show "callback (fst (register_handler suffix frm w)) = callback frm"
    using register_handler_fresh[of frm suffix w] register_handler_registered[of frm suffix w]
    by (cases "registered frm") auto
  show "callback_args (fst (register_handler suffix frm w)) = callback_args frm"
    using register_handler_fresh[of frm suffix w] register_handler_registered[of frm suffix w]
    by (cases "registered frm") auto
  show "length (handlers (snd (register_handler suffix frm w))) =
     length (handlers w) + (if registered frm then 0 else 1)"
    using register_handler_fresh[of frm suffix w] register_handler_registered[of frm suffix w]
    by (cases "registered frm") auto
  show "form_fields frm = [] \<Longrightarrow> form_fields (fst (register_handler suffix frm w)) = []"
    using register_handler_fresh[of frm suffix w] register_handler_registered[of frm suffix w]
    by (cases "registered frm") auto
qed

lemma start_field_promotion_frame:
  "fst (snd (start_field_promotion frm fd w)) = frm"
  "handlers (snd (snd (start_field_promotion frm fd w))) = handlers w"
  by (simp_all add: start_field_promotion_def send_message_def set_state_def split: option.split)

lemma start_via_register:
  "snd (start suffix cb args frm w) =
     (let frm1 = (case cb of Some c \<Rightarrow> frm\<lparr>callback := Some c, callback_args := args\<rparr> | None \<Rightarrow> frm);
          r = register_handler suffix frm1 w
      in (fst r,
          case form_fields (fst r) of [] \<Rightarrow> snd r
          | fd # _ \<Rightarrow> snd (snd (start_field_promotion (fst r) fd (snd r)))))"
  by (simp add: start_def Let_def case_prod_unfold start_field_promotion_def
      split: list.split option.split)

lemma start_props:
  "registered (fst (snd (start suffix cb args frm w)))"
  "callback (fst (snd (start suffix cb args frm w))) =
     (case cb of Some c \<Rightarrow> Some c | None \<Rightarrow> callback frm)"
  "callback_args (fst (snd (start suffix cb args frm w))) =
     (case cb of Some c \<Rightarrow> args | None \<Rightarrow> callback_args frm)"
  "length (handlers (snd (snd (start suffix cb args frm w)))) =
     length (handlers w) + (if registered frm then 0 else 1)"
  by (simp_all add: start_via_register Let_def register_handler_props
      start_field_promotion_frame split: list.split option.split)


subsection \<open>Sequences of calls\<close>






subsection \<open>get_data\<close>

lemma snapshot_fold:
  "map_of (foldl (\<lambda>r x. AList.update (k x) (h (k x)) r) r xs) key =
     (if key \<in> k ` set xs then Some (h key) else map_of r key)"
  by (induction xs arbitrary: r) (auto simp: update_conv')

lemma snapshot_keys:
  "fst ` set (foldl (\<lambda>r x. AList.update (k x) (g x) r) r xs) = fst ` set r \<union> k ` set xs"
  by (induction xs arbitrary: r) (auto simp: dom_update)

lemma snapshot_distinct:
  "distinct (map fst r) \<Longrightarrow> distinct (map fst (foldl (\<lambda>r x. AList.update (k x) (g x) r) r xs))"
  by (induction xs arbitrary: r) (simp_all add: distinct_update)

text \<open>C9. \<^verbatim>\<open>get_data\<close> returns normally, enters the state proxy once and changes nothing
  else. The dictionary it returns has exactly the data keys of the form's fields as its
  keys, each once, and maps the key of every field to what the conversation's data hold
  under it, \<^verbatim>\<open>None\<close> when they hold nothing.\<close>

theorem get_data_snapshot:
  "\<exists>r. get_data frm w = (Inr r, frm, w\<lparr>proxies := proxies w + 1\<rparr>) \<and>
        distinct (map fst r) \<and>
        fst ` set r = data_key frm ` set (form_fields frm) \<and>
        (\<forall>fd \<in> set (form_fields frm).
           map_of r (data_key frm fd) = Some (map_of (data (storage w (chat w))) (data_key frm fd)))"
  using snapshot_fold[of "data_key frm" "map_of (data (storage w (chat w)))" "[]" "form_fields frm"]
    snapshot_keys[of "data_key frm" "\<lambda>fd. map_of (data (storage w (chat w))) (data_key frm fd)"
       "[]" "form_fields frm"]
    snapshot_distinct[of "[]" "data_key frm"
       "\<lambda>fd. map_of (data (storage w (chat w))) (data_key frm fd)" "form_fields frm"]
  by (simp add: get_data_def Let_def)

subsection \<open>The callback\<close>

text \<open>C10. \<^verbatim>\<open>start\<close> with \<^verbatim>\<open>None\<close> as callback leaves the stored callback and callback
  arguments as they were, whatever arguments it is given, so that \<^verbatim>\<open>finish\<close> afterwards
  awaits what it would have awaited before; \<^verbatim>\<open>start\<close> with a callback stores it together
  with the arguments given.\<close>

theorem start_without_callback_keeps_callback:
  "callback (fst (snd (start suffix None args frm w))) = callback frm \<and>
   callback_args (fst (snd (start suffix None args frm w))) = callback_args frm \<and>
   callback (fst (snd (start suffix (Some cb) args frm w))) = Some cb \<and>
   callback_args (fst (snd (start suffix (Some cb) args frm w))) = args \<and>
   callback_calls (snd (snd (finish (fst (snd (start suffix None args frm w))) w'))) =
     callback_calls (snd (snd (finish frm w')))"
  by (simp add: start_props finish_result split: option.split)

subsection \<open>Forms without fields\<close>

text \<open>C6, as the code has it. A class body without fields is accepted by
  \<^verbatim>\<open>FormMeta.__new__\<close>, whatever the bases (the class \<^verbatim>\<open>BaseForm\<close> itself is such a
  form). The failure comes at run time: \<^verbatim>\<open>start\<close> on the form raises \<^verbatim>\<open>IndexError\<close>,
  after \<^verbatim>\<open>_register_handler\<close> has run, which registers the handler unless the class
  already counts as registered (a class derived from a registered form does).\<close>

theorem empty_form_fails_at_start:
  assumes "get_form_fields namespace = []"
  shows "\<exists>frm. FormMeta_new nm cls namespace = Inr frm \<and> form_fields frm = [] \<and>
           registered frm = registered cls \<and>
           fst (start suffix cb args frm w) = Inl IndexError \<and>
           length (handlers (snd (snd (start suffix cb args frm w)))) =
             length (handlers w) + (if registered cls then 0 else 1)"
proof -
  define frm where "frm = cls\<lparr>form_state := None, name := nm, form_fields := []\<rparr>"
  have new: "FormMeta_new nm cls namespace = Inr frm"
    by (simp add: FormMeta_new_def assms frm_def)
  define frm1 where "frm1 = (case cb of Some c \<Rightarrow> frm\<lparr>callback := Some c, callback_args := args\<rparr>
                             | None \<Rightarrow> frm)"
  have e: "form_fields frm1 = []" by (simp add: frm1_def frm_def split: option.split)
  have "fst (start suffix cb args frm w) = Inl IndexError"
    using register_handler_props(5)[OF e, of suffix w]
    by (simp add: start_def Let_def case_prod_unfold frm1_def[symmetric])
  moreover have "length (handlers (snd (snd (start suffix cb args frm w)))) =
      length (handlers w) + (if registered cls then 0 else 1)"
    by (simp add: start_props frm_def)
  ultimately show ?thesis using new by (simp add: frm_def)
qed

subsection \<open>The sign-up form, step by step\<close>

lemma Signup_eval:
  "Signup =
     \<lparr>name = ''Signup'',
      form_fields =
        [\<lparr>field_id = 10, field_key = Some ''name'', field_state = None,
          label = ''Your name?'', validation_error_message = ''Wrong input'',
          validators = [nonempty], reply_keyboard = ReplyKeyboardRemove\<rparr>,
         \<lparr>field_id = 11, field_key = Some ''age'', field_state = None,
          label = ''Your age?'', validation_error_message = ''Age is a number'',
          validators = [nonempty, numeric, short], reply_keyboard = ReplyKeyboardRemove\<rparr>],
      form_state = None, i18n = None, registered = False, callback = None,
      callback_args = None\<rparr>"
  by (simp add: Signup_def FormMeta_new_def BaseForm_def BaseForm_body_def get_form_fields_def
      signup_namespace_def BaseField_init_def set_name_def)

text \<open>The age field on the input \<^verbatim>\<open>abc\<close>: the second validator rejects it and the third
  is not invoked.\<close>

theorem validate_all_short_circuit_witness:
  "fst (validate (form_fields Signup ! 1) ''abc'' world0) = False \<and>
   validator_calls (snd (validate (form_fields Signup ! 1) ''abc'' world0)) =
     [(0, ''abc''), (1, ''abc'')]"
  using validate_all_short_circuit [of "form_fields Signup ! 1" "''abc''" world0]
  by (simp add: Signup_eval nonempty_def numeric_def short_def world0_def)

lemma started_compiled: "compiled Signup_started"
  by code_simp

lemma started_length: "length (form_fields Signup_started) = 2"
  by code_simp

lemma awaiting_age_state:
  "get_state awaiting_age = field_state (form_fields Signup_started ! 1)"
  by code_simp




lemma started_last: "last (form_fields Signup_started) = form_fields Signup_started ! 1"
proof -
  have "form_fields Signup_started \<noteq> []" using started_length by auto
  then show ?thesis by (simp add: last_conv_nth started_length)
qed

text \<open>The sign-up form awaiting the age, on the input \<^verbatim>\<open>30\<close>.\<close>

theorem last_field_success_finishes_witness:
  "fst (handle_input Signup_started ''30'' awaiting_age) = Inr () \<and>
   current_state (storage (snd (snd (handle_input Signup_started ''30'' awaiting_age))) 7) = None \<and>
   data (storage (snd (snd (handle_input Signup_started ''30'' awaiting_age))) 7) =
     [(''Signup:name'', ''Alice''), (''Signup:age'', ''30'')] \<and>
   callback_calls (snd (snd (handle_input Signup_started ''30'' awaiting_age))) = [(1, [])]"
proof -
  have ne: "form_fields Signup_started \<noteq> []" using started_length by auto
  have st: "get_state awaiting_age = field_state (last (form_fields Signup_started))"
    by (simp add: started_last awaiting_age_state)
  have ok: "list_all (\<lambda>x. check x ''30'') (validators (last (form_fields Signup_started)))"
    unfolding started_last by code_simp
  have c: "chat awaiting_age = 7" by code_simp
  have d: "AList.update (data_key Signup_started (last (form_fields Signup_started))) ''30''
             (data (storage awaiting_age 7)) = [(''Signup:name'', ''Alice''), (''Signup:age'', ''30'')]"
    unfolding started_last by code_simp
  have cb: "callback_calls awaiting_age @
             (case callback Signup_started of None \<Rightarrow> []
              | Some cb \<Rightarrow> [(cb, case callback_args Signup_started of None \<Rightarrow> [] | Some a \<Rightarrow> a)])
            = [(1, [])]"
    by code_simp
  from last_field_success_finishes[OF started_compiled ne st ok]
  show ?thesis unfolding c d cb by auto
qed

text \<open>C2 as stated fails there: the callback is awaited with no argument, not with the
  collected data.\<close>

theorem callback_gets_no_data_counterexample:
  "list_all (\<lambda>x. check x ''30'') (validators (last (form_fields Signup_started))) \<and>
   get_state awaiting_age = field_state (last (form_fields Signup_started)) \<and>
   callback Signup_started = Some 1 \<and>
   callback_calls awaiting_age = [] \<and>
   callback_calls (snd (snd (handle_input Signup_started ''30'' awaiting_age))) = [(1, [])] \<and>
   callback_calls (snd (snd (handle_input Signup_started ''30'' awaiting_age))) \<noteq>
     [(1, [PDict [(''Signup:name'', PStr ''Alice''), (''Signup:age'', PStr ''30'')]])]"
  by code_simp

text \<open>The sign-up form, compiled twice.\<close>

theorem state_compilation_memoized_witness:
  "\<exists>g frm1 w1.
     FormMeta_state ''StatesGroup'' Signup world0 = (g, frm1, w1) \<and>
     FormMeta_state ''StatesGroup'' frm1 w1 = (g, frm1, w1) \<and>
     classes_created w1 = 1 \<and>
     states_names g = [''SignupStatesGroup:waiting_name'', ''SignupStatesGroup:waiting_age''] \<and>
     map field_id (form_fields frm1) = [10, 11] \<and>
     map field_state (form_fields frm1) =
       [Some ''SignupStatesGroup:waiting_name'', Some ''SignupStatesGroup:waiting_age'']"
proof -
  have a: "form_state Signup = None" by code_simp
  have b: "distinct (map field_id (form_fields Signup))" by code_simp
  have c: "distinct (map state_label (form_fields Signup))" by code_simp
  have n: "map (\<lambda>fd. name Signup @ ''StatesGroup'' @ '':'' @ state_label fd) (form_fields Signup) =
           [''SignupStatesGroup:waiting_name'', ''SignupStatesGroup:waiting_age'']"
    by code_simp
  have d: "classes_created world0 = 0" by code_simp
  have i: "map field_id (form_fields Signup) = [10, 11]" by code_simp
  from state_compilation_memoized[of "''StatesGroup''" Signup world0]
  obtain g frm1 w1 where
    r1: "FormMeta_state ''StatesGroup'' Signup world0 = (g, frm1, w1)" and
    r2: "FormMeta_state ''StatesGroup'' frm1 w1 = (g, frm1, w1)" and
    r3: "classes_created w1 = classes_created world0 + (if form_state Signup = None then 1 else 0)" and
    r4: "form_state Signup = None \<and> distinct (map field_id (form_fields Signup)) \<and>
         distinct (map state_label (form_fields Signup)) \<longrightarrow>
         states_names g =
           map (\<lambda>fd. name Signup @ ''StatesGroup'' @ '':'' @ state_label fd) (form_fields Signup) \<and>
         distinct (states_names g) \<and>
         frm1 = Signup\<lparr>form_state := Some g,
                   form_fields := map2 (\<lambda>fd s. fd\<lparr>field_state := Some s\<rparr>)
                                    (form_fields Signup) (states_names g)\<rparr> \<and>
         length (form_fields frm1) = length (form_fields Signup) \<and>
         map field_state (form_fields frm1) = map Some (states_names g)"
    by (elim exE conjE)
  from r4 a b c have names0: "states_names g =
      map (\<lambda>fd. name Signup @ ''StatesGroup'' @ '':'' @ state_label fd) (form_fields Signup)"
    and frm1: "frm1 = Signup\<lparr>form_state := Some g,
                   form_fields := map2 (\<lambda>fd s. fd\<lparr>field_state := Some s\<rparr>)
                                    (form_fields Signup) (states_names g)\<rparr>"
    and states: "map field_state (form_fields frm1) = map Some (states_names g)"
    by blast+
  have names: "states_names g =
      [''SignupStatesGroup:waiting_name'', ''SignupStatesGroup:waiting_age'']"
    using names0 unfolding n .
  have fields: "form_fields frm1 = map2 (\<lambda>fd s. fd\<lparr>field_state := Some s\<rparr>)
                                    (form_fields Signup) (states_names g)"
    by (subst frm1) simp
  have len: "length (form_fields Signup) = 2" by code_simp
  then obtain f0 f1 where fs: "form_fields Signup = [f0, f1]"
    by (metis (no_types, opaque_lifting) One_nat_def Suc_1 length_0_conv length_Suc_conv)
  have ids: "map field_id (form_fields frm1) = [10, 11]"
    using i unfolding fields names fs by simp
  have cc: "classes_created w1 = 1" using r3 a d by simp
  have st: "map field_state (form_fields frm1) =
      [Some ''SignupStatesGroup:waiting_name'', Some ''SignupStatesGroup:waiting_age'']"
    using states by (simp add: names)
  from r1 r2 cc names ids st show ?thesis by auto
qed

text \<open>C4 as stated fails on the form that binds a field with a key already: the two
  fields share a state label, one state is made for the two, and the second field is
  assigned none.\<close>

theorem shared_state_label_counterexample:
  "form_state Reused = None \<and>
   map field_id (form_fields Reused) = [20, 21] \<and>
   map state_label (form_fields Reused) = [''waiting_name'', ''waiting_name''] \<and>
   states_names (fst (FormMeta_state ''StatesGroup'' Reused world0)) =
     [''ReusedStatesGroup:waiting_name''] \<and>
   map field_state (form_fields (fst (snd (FormMeta_state ''StatesGroup'' Reused world0)))) =
     [Some ''ReusedStatesGroup:waiting_name'', None]"
  by code_simp

lemma elsewhere_unmatched:
  "get_state elsewhere \<notin> set (map field_state (form_fields Signup_started))"
  by code_simp

text \<open>A message in chat 8, which is in no state of the form.\<close>

theorem unresolved_field_raises_witness:
  "handle_input Signup_started ''hello'' elsewhere = (Inl AttributeError, Signup_started, elsewhere)"
  using unresolved_field_raises[OF elsewhere_unmatched] .

text \<open>C5 as stated fails there: the handler raises.\<close>

theorem unresolved_field_counterexample:
  "get_state elsewhere = None \<and>
   map field_state (form_fields Signup_started) =
     [Some ''SignupStatesGroup:waiting_name'', Some ''SignupStatesGroup:waiting_age''] \<and>
   fst (handle_input Signup_started ''hello'' elsewhere) = Inl AttributeError \<and>
   fst (handle_input Signup_started ''hello'' elsewhere) \<noteq> Inr ()"
  by code_simp

lemma BaseForm_eval:
  "BaseForm = Inr \<lparr>name = ''BaseForm'', form_fields = [], form_state = None, i18n = None,
                    registered = False, callback = None, callback_args = None\<rparr>"
  by (simp add: BaseForm_def BaseForm_body_def FormMeta_new_def get_form_fields_def)

text \<open>A class body with one attribute that is not a field, in a class derived from
  \<^verbatim>\<open>BaseForm\<close>.\<close>

theorem empty_form_fails_at_start_witness:
  "\<exists>frm. FormMeta_new ''Empty'' (projr BaseForm) [(''helper'', Other)] = Inr frm \<and>
     form_fields frm = [] \<and>
     fst (start ''StatesGroup'' (Some 1) None frm world0) = Inl IndexError \<and>
     length (handlers (snd (snd (start ''StatesGroup'' (Some 1) None frm world0)))) = 1"
proof -
  have e: "get_form_fields [(''helper'', Other)] = []" by (simp add: get_form_fields_def)
  have r: "\<not> registered (projr BaseForm)" by (simp add: BaseForm_eval)
  have h: "handlers world0 = []" by (simp add: world0_def)
  from empty_form_fails_at_start[OF e, of "''Empty''" "projr BaseForm" "''StatesGroup''"
      "Some 1" None world0]
  show ?thesis using r h by auto
qed

text \<open>C6 as stated fails on \<^verbatim>\<open>BaseForm\<close> itself and on an empty class derived from it:
  the classes are constructed, and the error comes from \<^verbatim>\<open>start\<close>.\<close>

theorem empty_form_constructed_counterexample:
  "BaseForm = Inr \<lparr>name = ''BaseForm'', form_fields = [], form_state = None, i18n = None,
                    registered = False, callback = None, callback_args = None\<rparr> \<and>
   FormMeta_new ''Empty'' (projr BaseForm) [] =
     Inr \<lparr>name = ''Empty'', form_fields = [], form_state = None, i18n = None,
          registered = False, callback = None, callback_args = None\<rparr> \<and>
   fst (start ''StatesGroup'' (Some 1) None (projr (FormMeta_new ''Empty'' (projr BaseForm) []))
          world0) = Inl IndexError"
  by (simp add: BaseForm_eval FormMeta_new_def get_form_fields_def start_def
      register_handler_def FormMeta_state_def StatesGroup_new_def state_namespace_def world0_def)

text \<open>An empty class derived from the started sign-up form counts as registered:
  \<^verbatim>\<open>start\<close> on it raises without registering anything.\<close>

lemma child_of_started_form:
  "registered Child \<and> form_fields Child = [] \<and>
   fst (start ''StatesGroup'' None None Child awaiting_age) = Inl IndexError \<and>
   handlers (snd (snd (start ''StatesGroup'' None None Child awaiting_age))) =
     handlers awaiting_age"
  by code_simp

text \<open>\<^verbatim>\<open>finish\<close> while the sign-up form awaits the age: the name stays in the data.\<close>

theorem finish_clears_state_only_witness:
  "current_state (storage awaiting_age 7) = Some ''SignupStatesGroup:waiting_age'' \<and>
   current_state (storage (snd (snd (finish Signup_started awaiting_age))) 7) = None \<and>
   data (storage (snd (snd (finish Signup_started awaiting_age))) 7) =
     [(''Signup:name'', ''Alice'')]"
proof -
  have c: "chat awaiting_age = 7" by code_simp
  have s: "current_state (storage awaiting_age 7) = Some ''SignupStatesGroup:waiting_age''"
    by code_simp
  have d: "data (storage awaiting_age 7) = [(''Signup:name'', ''Alice'')]" by code_simp
  from finish_clears_state_only[of Signup_started awaiting_age]
  show ?thesis unfolding c using s d by simp
qed


lemma started_keys:
  "map (data_key Signup_started) (form_fields Signup_started) = [''Signup:name'', ''Signup:age'']"
  by code_simp

lemma awaiting_age_data:
  "data (storage awaiting_age (chat awaiting_age)) = [(''Signup:name'', ''Alice'')]"
  by code_simp

text \<open>\<^verbatim>\<open>get_data\<close> after the name was answered.\<close>

theorem get_data_snapshot_witness:
  "\<exists>r. fst (get_data Signup_started awaiting_age) = Inr r \<and>
     proxies (snd (snd (get_data Signup_started awaiting_age))) = proxies awaiting_age + 1 \<and>
     fst ` set r = {''Signup:name'', ''Signup:age''} \<and>
     map_of r ''Signup:name'' = Some (Some ''Alice'') \<and>
     map_of r ''Signup:age'' = Some None"
proof -
  obtain f0 f1 where fs: "form_fields Signup_started = [f0, f1]"
    using started_length
    by (metis (no_types, opaque_lifting) One_nat_def Suc_1 length_0_conv length_Suc_conv)
  have k0: "data_key Signup_started f0 = ''Signup:name''"
    and k1: "data_key Signup_started f1 = ''Signup:age''"
    using started_keys by (simp_all add: fs)
  from get_data_snapshot[of Signup_started awaiting_age]
  obtain r where r: "get_data Signup_started awaiting_age =
        (Inr r, Signup_started, awaiting_age\<lparr>proxies := proxies awaiting_age + 1\<rparr>)"
    and keys: "fst ` set r = data_key Signup_started ` set (form_fields Signup_started)"
    and vals: "\<forall>fd \<in> set (form_fields Signup_started).
           map_of r (data_key Signup_started fd) =
             Some (map_of (data (storage awaiting_age (chat awaiting_age))) (data_key Signup_started fd))"
    by (elim exE conjE)
  have v0: "map_of r ''Signup:name'' = Some (Some ''Alice'')"
    using vals unfolding fs awaiting_age_data by (simp add: k0)
  have v1: "map_of r ''Signup:age'' = Some None"
    using vals unfolding fs awaiting_age_data by (simp add: k1)
  have ks: "fst ` set r = {''Signup:name'', ''Signup:age''}"
    unfolding keys fs by (simp add: k0 k1)
  have a: "fst (get_data Signup_started awaiting_age) = Inr r" by (simp add: r)
  have b: "proxies (snd (snd (get_data Signup_started awaiting_age))) = proxies awaiting_age + 1"
    by (simp add: r)
  from a b ks v0 v1 show ?thesis by blast
qed

text \<open>\<^verbatim>\<open>start\<close> again on the started sign-up form, without and with a callback.\<close>

theorem start_without_callback_keeps_callback_witness:
  "callback Signup_started = Some 1 \<and>
   callback (fst (snd (start ''StatesGroup'' None (Some [PInt 5]) Signup_started awaiting_age))) = Some 1 \<and>
   callback_args (fst (snd (start ''StatesGroup'' None (Some [PInt 5]) Signup_started awaiting_age))) = None \<and>
   callback (fst (snd (start ''StatesGroup'' (Some 2) (Some [PInt 5]) Signup_started awaiting_age))) = Some 2 \<and>
   callback_args (fst (snd (start ''StatesGroup'' (Some 2) (Some [PInt 5]) Signup_started awaiting_age))) =
     Some [PInt 5]"
proof -
  have a: "callback Signup_started = Some 1" by code_simp
  have b: "callback_args Signup_started = None" by code_simp
  from start_without_callback_keeps_callback[of "''StatesGroup''" "Some [PInt 5]" Signup_started
      awaiting_age 2 awaiting_age]
  show ?thesis unfolding a b by simp
qed

end
